theory Spec2Isabelle
  imports Main
begin

section \<open>Values and schema nodes\<close>

text \<open>
  Native and wire values are Python objects. The marshaling code only ever asks a value
  whether it is \<^verbatim>\<open>None\<close>, whether it is dict-like or list-like, and whether it is an
  instance of a model type; everything else about a scalar is opaque to it. A float is
  kept as an uninterpreted token (no float arithmetic is performed anywhere in
  \<^verbatim>\<open>marshal.py\<close>), and any other native object (a \<^verbatim>\<open>datetime.date\<close>, say) is
  \<open>PObject\<close> with the name of its class and a token for its state.

  A dict is an association list in iteration order; a model instance carries its class
  and the pairs \<^verbatim>\<open>(attr_name, getattr(model_value, attr_name))\<close> in the order of
  \<^verbatim>\<open>dir(model_value)\<close>. A class is a class object: its identity and its \<^verbatim>\<open>__name__\<close>, so
  that two classes of the same name are two classes.
\<close>

datatype pyclass = PyClass (class_id: nat) (class_name: string)

datatype pyval =
    PNone
  | PBool bool
  | PInt int
  | PFloat nat
  | PStr string
  | PList "pyval list"
  | PDict "(string \<times> pyval) list"
  | PModel pyclass "(string \<times> pyval) list"
  | PObject string nat

text \<open>
  Modelled from the spec: the Schema Node of the data model (\<^verbatim>\<open>bravado_core.schema\<close> is
  not among the sources). A node has a declared type, an optional format name, an optional
  default value, a required flag, for an array an items sub-schema, and for a model-marked
  object a model-name tag. A default that is present may itself be \<^verbatim>\<open>None\<close>.
\<close>

datatype spec = Spec
  (spec_type: string)
  (spec_format: "string option")
  (spec_default: "pyval option")
  (spec_required: bool)
  (spec_items: "spec option")
  (spec_properties: "(string \<times> spec) list")
  (spec_model: "string option")

text \<open>
  Modelled from the spec: the schema lookup collaborator
  (\<^verbatim>\<open>hasDefault\<close>, \<^verbatim>\<open>getDefault\<close>, \<^verbatim>\<open>isRequired\<close>, \<^verbatim>\<open>hasFormat\<close>, \<^verbatim>\<open>getFormat\<close>),
  the model-marker predicate \<^verbatim>\<open>isModel\<close> and the value introspection
  (\<^verbatim>\<open>isMappingLike\<close>, \<^verbatim>\<open>isSequenceLike\<close>).
\<close>

definition has_default :: "spec \<Rightarrow> bool" where
  "has_default s = (spec_default s \<noteq> None)"

definition get_default :: "spec \<Rightarrow> pyval" where
  "get_default s = (case spec_default s of None \<Rightarrow> PNone | Some d \<Rightarrow> d)"

definition is_required :: "spec \<Rightarrow> bool" where
  "is_required s = spec_required s"

definition has_format :: "spec \<Rightarrow> bool" where
  "has_format s = (spec_format s \<noteq> None)"

definition schema_get_format :: "spec \<Rightarrow> string" where
  "schema_get_format s = (case spec_format s of None \<Rightarrow> [] | Some f \<Rightarrow> f)"

definition is_model :: "spec \<Rightarrow> bool" where
  "is_model s = (spec_model s \<noteq> None)"

fun is_dict_like :: "pyval \<Rightarrow> bool" where
  "is_dict_like (PDict kvs) = True"
| "is_dict_like v = False"

fun is_list_like :: "pyval \<Rightarrow> bool" where
  "is_list_like (PList xs) = True"
| "is_list_like v = False"

section \<open>Errors and warnings\<close>

text \<open>
  Every \<^verbatim>\<open>raise SwaggerMappingError(...)\<close> of \<^verbatim>\<open>marshal.py\<close> is one constructor of
  \<open>mapping_error\<close>, carrying what the message is formatted from. \<open>KeyError\<close> is Python's
  own, from \<^verbatim>\<open>array_spec['items']\<close> on a spec without items. \<open>Raised\<close> is whatever
  exception a format descriptor's own function raised.
\<close>

datatype mapping_error =
    Unknown_type string pyval
  | Required_value spec
  | Expected_list_like pyval
  | Expected_dict_like pyval
  | Unknown_model string
  | Expected_model_of_type string pyval

datatype error =
    SwaggerMappingError mapping_error
  | KeyError string
  | Raised string

type_synonym warning = string

text \<open>
  A call returns its value or the exception it raised, together with the warnings it
  passed to \<^verbatim>\<open>warnings.warn\<close> while it ran.
\<close>

type_synonym 'a result = "(error + 'a) \<times> warning list"

section \<open>formatter.py\<close>

record swagger_format =
  format :: string
  to_python :: "pyval \<Rightarrow> string + pyval"
  to_wire :: "pyval \<Rightarrow> string + pyval"
  validate :: "pyval \<Rightarrow> string + unit"
  description :: string

type_synonym formatters = "string \<rightharpoonup> swagger_format"

definition register_format :: "formatters \<Rightarrow> swagger_format \<Rightarrow> formatters" where
  "register_format fs swagger_format = fs(format swagger_format \<mapsto> swagger_format)"

definition get_format :: "formatters \<Rightarrow> string \<Rightarrow> swagger_format option \<times> warning list" where
  "get_format fs fmt =
     (let formatter = fs fmt in
      (formatter,
       if fmt \<noteq> [] \<and> formatter = None
       then [fmt @ '' format is not registered with bravado-core!'']
       else []))"

definition lift_raised :: "string + pyval \<Rightarrow> error + pyval" where
  "lift_raised r = (case r of Inl e \<Rightarrow> Inl (Raised e) | Inr v \<Rightarrow> Inr v)"

definition formatter_to_wire :: "formatters \<Rightarrow> spec \<Rightarrow> pyval \<Rightarrow> pyval result" where
  "formatter_to_wire fs s v =
     (if v = PNone \<or> \<not> has_format s then (Inr v, [])
      else (case get_format fs (schema_get_format s) of
              (Some formatter, ws) \<Rightarrow> (lift_raised (to_wire formatter v), ws)
            | (None, ws) \<Rightarrow> (Inr v, ws)))"

definition formatter_to_python :: "formatters \<Rightarrow> spec \<Rightarrow> pyval \<Rightarrow> pyval result" where
  "formatter_to_python fs s v =
     (if v = PNone \<or> \<not> has_format s then (Inr v, [])
      else (case get_format fs (schema_get_format s) of
              (Some formatter, ws) \<Rightarrow> (lift_raised (to_python formatter v), ws)
            | (None, ws) \<Rightarrow> (Inr v, ws)))"

section \<open>marshal.py\<close>

text \<open>
  What \<^verbatim>\<open>marshal.py\<close> reads from its surroundings: the model registry
  \<^verbatim>\<open>swagger_spec.definitions\<close> (model name to model type, a class), the format registry
  \<^verbatim>\<open>formatter._formatters\<close>, the subclass relation of the classes at hand (\<open>issubclass c d\<close>
  for a class \<open>c\<close> that inherits from \<open>d\<close>), and from \<^verbatim>\<open>bravado_core.schema\<close> the constant
  \<^verbatim>\<open>SWAGGER_PRIMITIVES\<close> and the function \<^verbatim>\<open>get_spec_for_prop\<close>, which are not among the
  sources and are taken as they come.
\<close>

record env =
  definitions :: "string \<rightharpoonup> pyclass"
  formatters :: formatters
  issubclass :: "pyclass \<Rightarrow> pyclass \<Rightarrow> bool"
  SWAGGER_PRIMITIVES :: "string list"
  get_spec_for_prop :: "spec \<Rightarrow> pyval \<Rightarrow> string \<Rightarrow> spec option"

definition marshal_primitive :: "env \<Rightarrow> spec \<Rightarrow> pyval \<Rightarrow> pyval result" where
  "marshal_primitive e s v0 =
     (let default_used = (v0 = PNone \<and> has_default s);
          v = (if default_used then get_default s else v0)
      in if v = PNone \<and> is_required s then (Inl (SwaggerMappingError (Required_value s)), [])
         else if \<not> default_used then formatter_to_wire (formatters e) s v
         else (Inr v, []))"

text \<open>
  \<^verbatim>\<open>isinstance(model_value, model_type)\<close>: the class of the value is the model type itself
  or a class that inherits from it. Classes are compared as objects, not by name. The
  model types of the registry are model classes, and only a model instance has one.
\<close>

fun isinstance :: "env \<Rightarrow> pyval \<Rightarrow> pyclass \<Rightarrow> bool" where
  "isinstance e (PModel c attrs) model_type = (c = model_type \<or> issubclass e c model_type)"
| "isinstance e v model_type = False"

text \<open>\<^verbatim>\<open>result[k] = v\<close> on a dict: a key already there keeps its place.\<close>

fun dict_set :: "(string \<times> pyval) list \<Rightarrow> string \<Rightarrow> pyval \<Rightarrow> (string \<times> pyval) list" where
  "dict_set [] k v = [(k, v)]"
| "dict_set ((k', v') # d) k v = (if k' = k then (k, v) # d else (k', v') # dict_set d k v)"

text \<open>\<^verbatim>\<open>dict(pairs)\<close>: the pairs are stored one after the other.\<close>

fun dict_of :: "(string \<times> pyval) list \<Rightarrow> (string \<times> pyval) list \<Rightarrow> (string \<times> pyval) list" where
  "dict_of [] d = d"
| "dict_of ((k, v) # ps) d = dict_of ps (dict_set d k v)"

text \<open>
  What the two \<^verbatim>\<open>for\<close> loops iterate over: the elements of a list-like value, and
  \<^verbatim>\<open>iteritems\<close> of a dict-like value. Each is reached only behind its shape check.
\<close>

fun elements :: "pyval \<Rightarrow> pyval list" where
  "elements (PList xs) = xs"
| "elements v = []"

fun iteritems :: "pyval \<Rightarrow> (string \<times> pyval) list" where
  "iteritems (PDict kvs) = kvs"
| "iteritems v = []"

text \<open>
  \<^verbatim>\<open>dict((attr_name, getattr(model_value, attr_name)) for attr_name in dir(model_value))\<close>
  reads these pairs; only a model instance reaches that line.
\<close>

fun attributes :: "pyval \<Rightarrow> (string \<times> pyval) list" where
  "attributes (PModel c attrs) = attrs"
| "attributes v = []"

text \<open>
  The recursive engine. The two \<^verbatim>\<open>for\<close> loops are \<open>marshal_array_loop\<close> and
  \<open>marshal_object_loop\<close>: the elements or items still to visit, and \<^verbatim>\<open>result\<close> so far.
  \<^verbatim>\<open>if prop_spec:\<close> is the test for a spec that was found, a schema node being a
  non-empty dict.
\<close>

function marshal_schema_object :: "env \<Rightarrow> spec \<Rightarrow> pyval \<Rightarrow> pyval result"
and marshal_array :: "env \<Rightarrow> spec \<Rightarrow> pyval \<Rightarrow> pyval result"
and marshal_array_loop :: "env \<Rightarrow> spec \<Rightarrow> pyval list \<Rightarrow> pyval list \<Rightarrow> pyval result"
and marshal_object :: "env \<Rightarrow> spec \<Rightarrow> pyval \<Rightarrow> pyval result"
and marshal_object_loop ::
  "env \<Rightarrow> spec \<Rightarrow> pyval \<Rightarrow> (string \<times> pyval) list \<Rightarrow> (string \<times> pyval) list \<Rightarrow> pyval result"
and marshal_model :: "env \<Rightarrow> spec \<Rightarrow> pyval \<Rightarrow> pyval result"
where
  "marshal_schema_object e s v =
     (let obj_type = spec_type s in
      if obj_type \<in> set (SWAGGER_PRIMITIVES e) then marshal_primitive e s v
      else if obj_type = ''array'' then marshal_array e s v
      else if is_model s then
        (if is_dict_like v then marshal_object e s v
         else marshal_model e s v)
      else if obj_type = ''object'' then marshal_object e s v
      else if obj_type = ''file'' then (Inr v, [])
      else (Inl (SwaggerMappingError (Unknown_type obj_type v)), []))"
| "marshal_array e s v =
     (if \<not> is_list_like v then (Inl (SwaggerMappingError (Expected_list_like v)), [])
      else marshal_array_loop e s (elements v) [])"
| "marshal_array_loop e s [] res = (Inr (PList res), [])"
| "marshal_array_loop e s (element # rest) res =
     (case spec_items s of
        None \<Rightarrow> (Inl (KeyError ''items''), [])
      | Some items \<Rightarrow>
          (case marshal_schema_object e items element of
             (Inl err, ws) \<Rightarrow> (Inl err, ws)
           | (Inr w, ws) \<Rightarrow>
               (case marshal_array_loop e s rest (res @ [w]) of (r, ws') \<Rightarrow> (r, ws @ ws'))))"
| "marshal_object e s v =
     (if \<not> is_dict_like v then (Inl (SwaggerMappingError (Expected_dict_like v)), [])
      else marshal_object_loop e s v (iteritems v) [])"
| "marshal_object_loop e s ov [] res = (Inr (PDict res), [])"
| "marshal_object_loop e s ov ((k, v) # rest) res =
     (if v = PNone then marshal_object_loop e s ov rest res
      else (case get_spec_for_prop e s ov k of
              Some prop_spec \<Rightarrow>
                (case marshal_schema_object e prop_spec v of
                   (Inl err, ws) \<Rightarrow> (Inl err, ws)
                 | (Inr w, ws) \<Rightarrow>
                     (case marshal_object_loop e s ov rest (dict_set res k w) of
                        (r, ws') \<Rightarrow> (r, ws @ ws')))
            | None \<Rightarrow> marshal_object_loop e s ov rest (dict_set res k v)))"
| "marshal_model e s v =
     (case spec_model s of
        None \<Rightarrow> (Inl (KeyError ''MODEL_MARKER''), [])
      | Some model_name \<Rightarrow>
         (case definitions e model_name of
            None \<Rightarrow> (Inl (SwaggerMappingError (Unknown_model model_name)), [])
          | Some model_type \<Rightarrow>
              if \<not> isinstance e v model_type
              then (Inl (SwaggerMappingError (Expected_model_of_type model_name v)), [])
              else marshal_object e s (PDict (dict_of (attributes v) []))))"
  by pat_completeness auto
termination
proof -
  have dict_set_le: "size_list (size_prod (\<lambda>_. 0) size) (dict_set d k v)
      \<le> size_list (size_prod (\<lambda>_. 0) size) d + size v + 2" for d k v
    by (induction d k v rule: dict_set.induct) auto
  have dict_of_le: "size_list (size_prod (\<lambda>_. 0) size) (dict_of ps d)
      \<le> size_list (size_prod (\<lambda>_. 0) size) d + size_list (size_prod (\<lambda>_. 0) size) ps"
    for ps d
  proof (induction ps d rule: dict_of.induct)
    case (1 d)
    then show ?case by simp
  next
    case (2 k v ps d)
    with dict_set_le [of d k v] show ?case by simp
  qed
  have attrs_le: "size (PDict (dict_of (attributes v) [])) \<le> size v"
    if "isinstance e v model_type" for e v model_type
    using that dict_of_le [of "attributes v" "[]"] by (cases v) simp_all
  have elements_less: "size_list size (elements v) < size v" if "is_list_like v" for v
    using that by (cases v) simp_all
  have iteritems_less: "size_list (size_prod (\<lambda>_. 0) size) (iteritems v) < size v"
    if "is_dict_like v" for v
    using that by (cases v) simp_all
  show ?thesis
    by (relation "measure (case_sum
        (case_sum (\<lambda>(e, s, v). 4 * size v + 3)
           (case_sum (\<lambda>(e, s, v). 4 * size v + 1)
              (\<lambda>(e, s, xs, res). 4 * size_list size xs)))
        (case_sum (\<lambda>(e, s, v). 4 * size v + 1)
           (case_sum (\<lambda>(e, s, ov, kvs, res). 4 * size_list (size_prod (\<lambda>_. 0) size) kvs)
              (\<lambda>(e, s, v). 4 * size v + 2))))")
      (auto dest: attrs_le elements_less iteritems_less)
qed

declare marshal_schema_object.simps [simp del]
declare marshal_array.simps [simp del]
declare marshal_object.simps [simp del]
declare marshal_model.simps [simp del]

section \<open>Vocabulary of the properties\<close>

text \<open>
  What one pass of the object loop stores under key \<open>k\<close> for a value \<open>v\<close> that is not
  \<^verbatim>\<open>None\<close>: the value itself when no property spec is found, the marshaled value
  otherwise.
\<close>

definition marshaled_entry :: "env \<Rightarrow> spec \<Rightarrow> pyval \<Rightarrow> string \<Rightarrow> pyval \<Rightarrow> pyval \<Rightarrow> bool" where
  "marshaled_entry e s ov k v w =
     (case get_spec_for_prop e s ov k of
        None \<Rightarrow> w = v
      | Some prop_spec \<Rightarrow> fst (marshal_schema_object e prop_spec v) = Inr w)"

text \<open>
  The leaves of a wire value are what stands at the tips of its lists and dicts; a model
  instance or any other object is a leaf.
\<close>

fun leaves :: "pyval \<Rightarrow> pyval set" where
  "leaves (PList xs) = (\<Union>x \<in> set xs. leaves x)"
| "leaves (PDict kvs) = (\<Union>kv \<in> set kvs. leaves (snd kv))"
| "leaves v = {v}"

text \<open>The scalars JSON has: null, booleans, numbers and strings.\<close>

fun json_primitive :: "pyval \<Rightarrow> bool" where
  "json_primitive PNone = True"
| "json_primitive (PBool b) = True"
| "json_primitive (PInt i) = True"
| "json_primitive (PFloat f) = True"
| "json_primitive (PStr x) = True"
| "json_primitive v = False"

text \<open>The encoder outputs are what a registered format's \<open>to_wire\<close> returns.\<close>

definition encoder_outputs :: "env \<Rightarrow> pyval set" where
  "encoder_outputs e = {w. \<exists>f \<in> ran (formatters e). \<exists>x. to_wire f x = Inr w}"

text \<open>
  The branch of \<open>marshal_schema_object\<close> a spec takes, in the order of its tests.
\<close>

datatype kind = Primitive_kind | Array_kind | Model_kind | Object_kind | File_kind | Unknown_kind

definition dispatch :: "env \<Rightarrow> spec \<Rightarrow> kind" where
  "dispatch e s =
     (if spec_type s \<in> set (SWAGGER_PRIMITIVES e) then Primitive_kind
      else if spec_type s = ''array'' then Array_kind
      else if is_model s then Model_kind
      else if spec_type s = ''object'' then Object_kind
      else if spec_type s = ''file'' then File_kind
      else Unknown_kind)"

text \<open>
  The places where a walk stops recursing and a value is emitted as a whole: a value
  handed to the primitive sub-transform with its spec, a value under a \<^verbatim>\<open>file\<close> spec, and
  a property value with no spec. \<open>visits e s v p\<close>: marshaling \<open>v\<close> against \<open>s\<close> comes to \<open>p\<close>,
  through array elements, through property values that are not \<^verbatim>\<open>None\<close> and have a spec,
  and through the attributes of a model instance under a model-marked spec. What is
  emitted there: what \<open>marshal_primitive\<close> returns, or the value itself.
\<close>

datatype position = At_primitive spec pyval | At_file pyval | At_unspecified pyval

inductive visits :: "env \<Rightarrow> spec \<Rightarrow> pyval \<Rightarrow> position \<Rightarrow> bool" for e :: env where
  visit_primitive:
    "dispatch e s = Primitive_kind \<Longrightarrow> visits e s v (At_primitive s v)"
| visit_file:
    "dispatch e s = File_kind \<Longrightarrow> visits e s v (At_file v)"
| visit_element:
    "dispatch e s = Array_kind \<Longrightarrow> spec_items s = Some items \<Longrightarrow> x \<in> set xs \<Longrightarrow>
       visits e items x p \<Longrightarrow> visits e s (PList xs) p"
| visit_unspecified:
    "dispatch e s = Model_kind \<or> dispatch e s = Object_kind \<Longrightarrow> (k, x) \<in> set kvs \<Longrightarrow>
       x \<noteq> PNone \<Longrightarrow> get_spec_for_prop e s (PDict kvs) k = None \<Longrightarrow>
       visits e s (PDict kvs) (At_unspecified x)"
| visit_property:
    "dispatch e s = Model_kind \<or> dispatch e s = Object_kind \<Longrightarrow> (k, x) \<in> set kvs \<Longrightarrow>
       x \<noteq> PNone \<Longrightarrow> get_spec_for_prop e s (PDict kvs) k = Some prop_spec \<Longrightarrow>
       visits e prop_spec x p \<Longrightarrow> visits e s (PDict kvs) p"
| visit_model:
    "dispatch e s = Model_kind \<Longrightarrow> visits e s (PDict (dict_of attrs [])) p \<Longrightarrow>
       visits e s (PModel c attrs) p"

fun emitted_at :: "env \<Rightarrow> position \<Rightarrow> pyval set" where
  "emitted_at e (At_primitive t x) = {w. fst (marshal_primitive e t x) = Inr w}"
| "emitted_at e (At_file x) = {x}"
| "emitted_at e (At_unspecified x) = {x}"

definition walk_leaves :: "env \<Rightarrow> spec \<Rightarrow> pyval \<Rightarrow> pyval set" where
  "walk_leaves e s v = {u. \<exists>p w. visits e s v p \<and> w \<in> emitted_at e p \<and> u \<in> leaves w}"

section \<open>A concrete environment\<close>

text \<open>
  An environment to run the engine in: the primitive kinds of Swagger, one registered
  format \<^verbatim>\<open>tag\<close> whose encoder prefixes a string with \<^verbatim>\<open>#\<close> and raises on anything
  else, one model \<^verbatim>\<open>Pet\<close> with a subclass \<^verbatim>\<open>Puppy\<close>, a second class that is also named
  \<^verbatim>\<open>Pet\<close> and is no model, and property specs looked up among the properties of the
  object spec.
\<close>

definition pet_class :: pyclass where
  "pet_class = PyClass 1 ''Pet''"

definition puppy_class :: pyclass where
  "puppy_class = PyClass 2 ''Puppy''"

definition other_pet_class :: pyclass where
  "other_pet_class = PyClass 3 ''Pet''"

definition tag_format :: swagger_format where
  "tag_format =
     \<lparr>format = ''tag'',
      to_python = (\<lambda>v. case v of PStr (c # x) \<Rightarrow> Inr (PStr x) | _ \<Rightarrow> Inl ''ValueError''),
      to_wire = (\<lambda>v. case v of PStr x \<Rightarrow> Inr (PStr (CHR ''#'' # x)) | _ \<Rightarrow> Inl ''TypeError''),
      validate = (\<lambda>v. Inr ()),
      description = ''Converts [wire]string:tag <=> python string''\<rparr>"

definition example_env :: env where
  "example_env =
     \<lparr>definitions = [''Pet'' \<mapsto> pet_class],
      formatters = register_format Map.empty tag_format,
      issubclass = (\<lambda>c d. c = puppy_class \<and> d = pet_class),
      SWAGGER_PRIMITIVES = [''integer'', ''number'', ''string'', ''boolean'', ''null''],
      get_spec_for_prop = (\<lambda>s ov k. map_of (spec_properties s) k)\<rparr>"

definition primitive_spec :: "string \<Rightarrow> spec" where
  "primitive_spec ty = Spec ty None None False None [] None"

definition tagged_spec :: spec where
  "tagged_spec = Spec ''string'' (Some ''tag'') None False None [] None"

definition required_spec :: spec where
  "required_spec = Spec ''string'' None None True None [] None"

definition thing_spec :: spec where
  "thing_spec = Spec ''object'' None None False None
     [(''seen'', primitive_spec ''boolean''), (''label'', tagged_spec), (''name'', required_spec)]
     None"

definition default_spec :: spec where
  "default_spec = Spec ''string'' (Some ''tag'') (Some (PStr ''none'')) True None [] None"

definition null_default_spec :: spec where
  "null_default_spec = Spec ''string'' None (Some PNone) True None [] None"

definition unknown_format_spec :: spec where
  "unknown_format_spec = Spec ''string'' (Some ''custom-foo'') None False None [] None"

definition empty_format_spec :: spec where
  "empty_format_spec = Spec ''string'' (Some []) None False None [] None"

definition marked_array_spec :: spec where
  "marked_array_spec =
     Spec ''array'' None None False (Some (primitive_spec ''string'')) [] (Some ''Pet'')"

definition pet_spec :: spec where
  "pet_spec = Spec ''object'' None None False None [(''label'', tagged_spec)] (Some ''Pet'')"

definition marked_string_spec :: spec where
  "marked_string_spec = Spec ''string'' None None False None [] (Some ''Pet'')"

definition tagged_pet :: pyval where
  "tagged_pet = PModel pet_class [(''born'', PObject ''date'' 0), (''label'', PStr ''a'')]"

section \<open>The two loops\<close>

lemma marshal_array_loop_iff:
  assumes "spec_items s = Some items"
  shows "fst (marshal_array_loop e s xs res) = Inr r \<longleftrightarrow>
    (\<exists>ys. r = PList (res @ ys) \<and>
       list_all2 (\<lambda>x y. fst (marshal_schema_object e items x) = Inr y) xs ys)"
proof (induction xs arbitrary: res)
  case Nil
  then show ?case by auto
next
  case (Cons x xs)
  obtain ox ws where mx: "marshal_schema_object e items x = (ox, ws)"
    by (cases "marshal_schema_object e items x")
  show ?case
  proof (cases ox)
    case (Inl err)
    with mx assms show ?thesis by (simp add: list_all2_Cons1)
  next
    case (Inr w)
    have "fst (marshal_array_loop e s (x # xs) res) = fst (marshal_array_loop e s xs (res @ [w]))"
      using mx Inr assms by (simp split: prod.splits)
    then show ?thesis
      using Cons.IH [of "res @ [w]"] mx Inr by (auto simp: list_all2_Cons1)
  qed
qed

lemma marshal_array_PList:
  "marshal_array e s (PList xs) = marshal_array_loop e s xs []"
  by (simp add: marshal_array.simps)

lemma marshal_array_not_list_like:
  "\<not> is_list_like v \<Longrightarrow>
     marshal_array e s v = (Inl (SwaggerMappingError (Expected_list_like v)), [])"
  by (cases v) (simp_all add: marshal_array.simps)

lemma map_of_dict_set: "map_of (dict_set d k v) = (map_of d)(k \<mapsto> v)"
  by (induction d k v rule: dict_set.induct) auto

lemma marshal_object_loop_step:
  assumes "fst (marshal_object_loop e s ov ((k, v) # rest) res) = Inr r"
  shows "\<exists>res'. fst (marshal_object_loop e s ov rest res') = Inr r \<and>
     (if v = PNone then res' = res
      else \<exists>w. marshaled_entry e s ov k v w \<and> res' = dict_set res k w)"
proof (cases "v = PNone")
  case True
  with assms show ?thesis by simp
next
  case False
  show ?thesis
  proof (cases "get_spec_for_prop e s ov k")
    case None
    with assms False show ?thesis by (auto simp: marshaled_entry_def)
  next
    case (Some ps)
    obtain o1 ws where m: "marshal_schema_object e ps v = (o1, ws)"
      by (cases "marshal_schema_object e ps v")
    show ?thesis
    proof (cases o1)
      case (Inl err)
      with assms False Some m show ?thesis by simp
    next
      case (Inr w)
      with assms False Some m
      have "fst (marshal_object_loop e s ov rest (dict_set res k w)) = Inr r"
        by (simp split: prod.splits)
      with False Some m Inr show ?thesis by (auto simp: marshaled_entry_def)
    qed
  qed
qed

lemma marshal_object_loop_Inr:
  "fst (marshal_object_loop e s ov kvs res) = Inr r \<Longrightarrow> distinct (map fst kvs) \<Longrightarrow>
    \<exists>out. r = PDict out \<and>
      (\<forall>k. case map_of kvs k of
              None \<Rightarrow> map_of out k = map_of res k
            | Some v \<Rightarrow>
                if v = PNone then map_of out k = map_of res k
                else \<exists>w. marshaled_entry e s ov k v w \<and> map_of out k = Some w)"
proof (induction kvs arbitrary: res)
  case Nil
  then show ?case by auto
next
  case (Cons kv kvs)
  obtain k v where kv: "kv = (k, v)" by (cases kv)
  from Cons.prems kv have fresh: "map_of kvs k = None" and dist: "distinct (map fst kvs)"
    by (auto simp: map_of_eq_None_iff)
  from marshal_object_loop_step [of e s ov k v kvs res r] Cons.prems(1) kv
  obtain res' where run: "fst (marshal_object_loop e s ov kvs res') = Inr r"
    and res': "if v = PNone then res' = res
      else \<exists>w. marshaled_entry e s ov k v w \<and> res' = dict_set res k w"
    by blast
  from Cons.IH [OF run dist] obtain out where out: "r = PDict out"
    and ih: "\<And>k'. case map_of kvs k' of
              None \<Rightarrow> map_of out k' = map_of res' k'
            | Some v \<Rightarrow>
                if v = PNone then map_of out k' = map_of res' k'
                else \<exists>w. marshaled_entry e s ov k' v w \<and> map_of out k' = Some w"
    by blast
  have "case map_of (kv # kvs) k' of
              None \<Rightarrow> map_of out k' = map_of res k'
            | Some v \<Rightarrow>
                if v = PNone then map_of out k' = map_of res k'
                else \<exists>w. marshaled_entry e s ov k' v w \<and> map_of out k' = Some w" for k'
  proof (cases "k' = k")
    case True
    with ih [of k] fresh res' kv show ?thesis
      by (auto simp: map_of_dict_set split: if_splits)
  next
    case False
    with ih [of k'] res' kv show ?thesis
      by (auto simp: map_of_dict_set split: if_splits option.splits)
  qed
  with out show ?case by blast
qed

lemma marshal_object_loop_succeeds:
  "(\<forall>(k, v) \<in> set kvs. v \<noteq> PNone \<longrightarrow> (\<exists>w. marshaled_entry e s ov k v w)) \<Longrightarrow>
     \<exists>out. fst (marshal_object_loop e s ov kvs res) = Inr (PDict out)"
proof (induction kvs arbitrary: res)
  case Nil
  then show ?case by simp
next
  case (Cons kv kvs)
  obtain k v where kv: "kv = (k, v)" by (cases kv)
  from Cons.prems
  have rest: "\<forall>(k, v) \<in> set kvs. v \<noteq> PNone \<longrightarrow> (\<exists>w. marshaled_entry e s ov k v w)"
    by simp
  show ?case
  proof (cases "v = PNone")
    case True
    with Cons.IH [OF rest, of res] kv show ?thesis by simp
  next
    case False
    with Cons.prems kv obtain w where w: "marshaled_entry e s ov k v w" by auto
    show ?thesis
    proof (cases "get_spec_for_prop e s ov k")
      case None
      with Cons.IH [OF rest, of "dict_set res k v"] kv False show ?thesis by simp
    next
      case (Some ps)
      with w have "fst (marshal_schema_object e ps v) = Inr w"
        by (simp add: marshaled_entry_def)
      then obtain ws where "marshal_schema_object e ps v = (Inr w, ws)"
        by (cases "marshal_schema_object e ps v") simp
      with Cons.IH [OF rest, of "dict_set res k w"] kv False Some show ?thesis
        by (auto split: prod.splits)
    qed
  qed
qed

lemma marshal_object_PDict:
  "marshal_object e s (PDict kvs) = marshal_object_loop e s (PDict kvs) kvs []"
  by (simp add: marshal_object.simps)

lemma marshal_object_not_dict_like:
  "\<not> is_dict_like v \<Longrightarrow>
     marshal_object e s v = (Inl (SwaggerMappingError (Expected_dict_like v)), [])"
  by (cases v) (simp_all add: marshal_object.simps)

lemma marshal_object_loop_Inl:
  "fst (marshal_object_loop e s ov kvs res) = Inl err \<Longrightarrow>
     \<exists>(k, v) \<in> set kvs. v \<noteq> PNone \<and>
       (\<exists>ps. get_spec_for_prop e s ov k = Some ps \<and> fst (marshal_schema_object e ps v) = Inl err)"
proof (induction kvs arbitrary: res)
  case Nil
  then show ?case by simp
next
  case (Cons kv kvs)
  obtain k v where kv: "kv = (k, v)" by (cases kv)
  show ?case
  proof (cases "v = PNone")
    case True
    with Cons.prems kv have "fst (marshal_object_loop e s ov kvs res) = Inl err" by simp
    from Cons.IH [OF this] show ?thesis by auto
  next
    case False
    show ?thesis
    proof (cases "get_spec_for_prop e s ov k")
      case None
      with Cons.prems kv False
      have "fst (marshal_object_loop e s ov kvs (dict_set res k v)) = Inl err" by simp
      from Cons.IH [OF this] show ?thesis by auto
    next
      case (Some ps)
      obtain o1 ws where m: "marshal_schema_object e ps v = (o1, ws)"
        by (cases "marshal_schema_object e ps v")
      show ?thesis
      proof (cases o1)
        case (Inl err')
        with Cons.prems kv False Some m show ?thesis by auto
      next
        case (Inr w)
        with Cons.prems kv False Some m
        have "fst (marshal_object_loop e s ov kvs (dict_set res k w)) = Inl err"
          by (simp split: prod.splits)
        from Cons.IH [OF this] show ?thesis by auto
      qed
    qed
  qed
qed

lemma marshaled_entry_ex:
  "(\<exists>w. marshaled_entry e s ov k v w) \<longleftrightarrow>
     (\<forall>ps. get_spec_for_prop e s ov k = Some ps \<longrightarrow>
        (\<exists>w. fst (marshal_schema_object e ps v) = Inr w))"
  by (cases "get_spec_for_prop e s ov k") (simp_all add: marshaled_entry_def)

section \<open>What each sub-transform returns\<close>

lemma values_dict_set: "snd ` set (dict_set d k v) \<subseteq> insert v (snd ` set d)"
  by (induction d k v rule: dict_set.induct) auto

lemma values_dict_of: "snd ` set (dict_of ps d) \<subseteq> snd ` set ps \<union> snd ` set d"
proof (induction ps d rule: dict_of.induct)
  case (1 d)
  then show ?case by simp
next
  case (2 k v ps d)
  have "snd ` set (dict_of ((k, v) # ps) d) \<subseteq> snd ` set ps \<union> snd ` set (dict_set d k v)"
    using 2 by simp
  also have "\<dots> \<subseteq> snd ` set ps \<union> insert v (snd ` set d)"
    using values_dict_set [of d k v] by blast
  finally show ?case by auto
qed

lemma formatter_to_wire_unfold:
  "formatter_to_wire fs s v =
     (if v = PNone \<or> \<not> has_format s then (Inr v, [])
      else (case fs (schema_get_format s) of
              Some formatter \<Rightarrow> (lift_raised (to_wire formatter v), [])
            | None \<Rightarrow>
                (Inr v,
                 if schema_get_format s = [] then []
                 else [schema_get_format s @ '' format is not registered with bravado-core!''])))"
  by (simp add: formatter_to_wire_def get_format_def split: option.splits)

lemma formatter_to_wire_Inr:
  assumes "fst (formatter_to_wire fs s v) = Inr r"
  shows "r = v \<or> (\<exists>f. fs (schema_get_format s) = Some f \<and> to_wire f v = Inr r)"
proof (cases "v = PNone \<or> \<not> has_format s")
  case True
  with assms show ?thesis by (simp add: formatter_to_wire_unfold)
next
  case False
  show ?thesis
  proof (cases "fs (schema_get_format s)")
    case None
    with assms False show ?thesis by (simp add: formatter_to_wire_unfold)
  next
    case (Some f)
    with assms False have "lift_raised (to_wire f v) = Inr r"
      by (simp add: formatter_to_wire_unfold)
    then have "to_wire f v = Inr r"
      by (cases "to_wire f v") (simp_all add: lift_raised_def)
    with Some show ?thesis by blast
  qed
qed

lemma marshal_object_loop_values:
  "fst (marshal_object_loop e s ov kvs res) = Inr r \<Longrightarrow>
     \<exists>out. r = PDict out \<and>
       snd ` set out \<subseteq> snd ` set res \<union>
         {w. \<exists>k v. (k, v) \<in> set kvs \<and> v \<noteq> PNone \<and> marshaled_entry e s ov k v w}"
proof (induction kvs arbitrary: res)
  case Nil
  then show ?case by auto
next
  case (Cons kv kvs)
  obtain k v where kv: "kv = (k, v)" by (cases kv)
  from marshal_object_loop_step [of e s ov k v kvs res r] Cons.prems kv
  obtain res' where run: "fst (marshal_object_loop e s ov kvs res') = Inr r"
    and res': "if v = PNone then res' = res
      else \<exists>w. marshaled_entry e s ov k v w \<and> res' = dict_set res k w"
    by blast
  from Cons.IH [OF run] obtain out where out: "r = PDict out"
    and vals: "snd ` set out \<subseteq> snd ` set res' \<union>
         {w. \<exists>k v. (k, v) \<in> set kvs \<and> v \<noteq> PNone \<and> marshaled_entry e s ov k v w}"
    by blast
  have step: "snd ` set res' \<subseteq> snd ` set res \<union>
         {w. \<exists>k' v'. (k', v') \<in> set (kv # kvs) \<and> v' \<noteq> PNone \<and> marshaled_entry e s ov k' v' w}"
  proof (cases "v = PNone")
    case True
    with res' show ?thesis by auto
  next
    case False
    with res' obtain w where w: "marshaled_entry e s ov k v w" and eq: "res' = dict_set res k w"
      by auto
    have "w \<in> {w. \<exists>k' v'. (k', v') \<in> set (kv # kvs) \<and> v' \<noteq> PNone \<and> marshaled_entry e s ov k' v' w}"
      using w False kv by auto
    with values_dict_set [of res k w] eq show ?thesis by blast
  qed
  have "snd ` set out \<subseteq> snd ` set res \<union>
         {w. \<exists>k' v'. (k', v') \<in> set (kv # kvs) \<and> v' \<noteq> PNone \<and> marshaled_entry e s ov k' v' w}"
  proof
    fix w assume "w \<in> snd ` set out"
    with vals have "w \<in> snd ` set res' \<or>
        (\<exists>k v. (k, v) \<in> set kvs \<and> v \<noteq> PNone \<and> marshaled_entry e s ov k v w)"
      by blast
    then show "w \<in> snd ` set res \<union>
         {w. \<exists>k' v'. (k', v') \<in> set (kv # kvs) \<and> v' \<noteq> PNone \<and> marshaled_entry e s ov k' v' w}"
    proof
      assume "w \<in> snd ` set res'"
      with step show ?thesis by blast
    next
      assume "\<exists>k v. (k, v) \<in> set kvs \<and> v \<noteq> PNone \<and> marshaled_entry e s ov k v w"
      then show ?thesis by auto
    qed
  qed
  with out show ?case by blast
qed

lemma marshal_array_Inr_PList:
  "fst (marshal_array e s v) = Inr r \<Longrightarrow> \<exists>xs. v = PList xs"
  by (cases v) (simp_all add: marshal_array.simps)

lemma marshal_object_Inr_PDict:
  "fst (marshal_object e s v) = Inr r \<Longrightarrow> \<exists>kvs. v = PDict kvs"
  by (cases v) (simp_all add: marshal_object.simps)

lemma marshal_model_Inr:
  assumes "fst (marshal_model e s v) = Inr r"
  shows "\<exists>c attrs. v = PModel c attrs \<and>
            fst (marshal_object e s (PDict (dict_of attrs []))) = Inr r"
proof (cases "spec_model s")
  case None
  with assms show ?thesis by (simp add: marshal_model.simps)
next
  case (Some model_name)
  show ?thesis
  proof (cases "definitions e model_name")
    case None
    with assms Some show ?thesis by (simp add: marshal_model.simps)
  next
    case (Some model_type)
    with assms \<open>spec_model s = Some model_name\<close> show ?thesis
      by (cases v) (simp_all add: marshal_model.simps split: if_splits)
  qed
qed

lemma marshal_primitive_origin:
  assumes "fst (marshal_primitive e t x) = Inr w"
  shows "w = x \<or> (x = PNone \<and> spec_default t = Some w) \<or>
    (\<exists>f. formatters e (schema_get_format t) = Some f \<and> to_wire f x = Inr w)"
proof (cases "x = PNone \<and> has_default t")
  case True
  then obtain d where d: "spec_default t = Some d" by (auto simp: has_default_def)
  with True assms have "w = d"
    by (simp add: marshal_primitive_def get_default_def has_default_def split: if_splits)
  with d True show ?thesis by simp
next
  case False
  with assms have "fst (formatter_to_wire (formatters e) t x) = Inr w"
    by (simp add: marshal_primitive_def split: if_splits)
  from formatter_to_wire_Inr [OF this] show ?thesis by blast
qed

lemma marshal_primitive_passthrough:
  assumes "v \<noteq> PNone" and "\<not> has_format s \<or> formatters e (schema_get_format s) = None"
  shows "fst (marshal_primitive e s v) = Inr v"
  using assms by (auto simp: marshal_primitive_def formatter_to_wire_unfold)

section \<open>The places a walk emits at\<close>

lemma marshal_schema_object_dispatch:
  "marshal_schema_object e s v =
     (case dispatch e s of
        Primitive_kind \<Rightarrow> marshal_primitive e s v
      | Array_kind \<Rightarrow> marshal_array e s v
      | Model_kind \<Rightarrow> if is_dict_like v then marshal_object e s v else marshal_model e s v
      | Object_kind \<Rightarrow> marshal_object e s v
      | File_kind \<Rightarrow> (Inr v, [])
      | Unknown_kind \<Rightarrow> (Inl (SwaggerMappingError (Unknown_type (spec_type s) v)), []))"
  by (simp add: marshal_schema_object.simps dispatch_def)

lemma walk_leaves_primitive:
  "dispatch e s = Primitive_kind \<Longrightarrow> fst (marshal_primitive e s v) = Inr r \<Longrightarrow>
     leaves r \<subseteq> walk_leaves e s v"
  unfolding walk_leaves_def using visit_primitive [of e s v] by fastforce

lemma walk_leaves_file: "dispatch e s = File_kind \<Longrightarrow> leaves v \<subseteq> walk_leaves e s v"
  unfolding walk_leaves_def using visit_file [of e s v] by fastforce

lemma walk_leaves_element:
  "dispatch e s = Array_kind \<Longrightarrow> spec_items s = Some items \<Longrightarrow> x \<in> set xs \<Longrightarrow>
     walk_leaves e items x \<subseteq> walk_leaves e s (PList xs)"
  unfolding walk_leaves_def using visit_element [of e s items x xs] by blast

lemma walk_leaves_unspecified:
  "dispatch e s = Model_kind \<or> dispatch e s = Object_kind \<Longrightarrow> (k, x) \<in> set kvs \<Longrightarrow>
     x \<noteq> PNone \<Longrightarrow> get_spec_for_prop e s (PDict kvs) k = None \<Longrightarrow>
     leaves x \<subseteq> walk_leaves e s (PDict kvs)"
  unfolding walk_leaves_def using visit_unspecified [of e s k x kvs] by fastforce

lemma walk_leaves_property:
  "dispatch e s = Model_kind \<or> dispatch e s = Object_kind \<Longrightarrow> (k, x) \<in> set kvs \<Longrightarrow>
     x \<noteq> PNone \<Longrightarrow> get_spec_for_prop e s (PDict kvs) k = Some prop_spec \<Longrightarrow>
     walk_leaves e prop_spec x \<subseteq> walk_leaves e s (PDict kvs)"
  unfolding walk_leaves_def using visit_property [of e s k x kvs prop_spec] by blast

lemma walk_leaves_model:
  "dispatch e s = Model_kind \<Longrightarrow>
     walk_leaves e s (PDict (dict_of attrs [])) \<subseteq> walk_leaves e s (PModel c attrs)"
  unfolding walk_leaves_def using visit_model [of e s attrs _ c] by blast


lemma marshal_array_walk_leaves:
  assumes ih: "\<And>x t r. x \<in> set xs \<Longrightarrow> fst (marshal_schema_object e t x) = Inr r \<Longrightarrow>
                 leaves r \<subseteq> walk_leaves e t x"
    and kind: "dispatch e s = Array_kind"
    and run: "fst (marshal_array e s (PList xs)) = Inr r"
  shows "leaves r \<subseteq> walk_leaves e s (PList xs)"
proof (cases "spec_items s")
  case None
  with run show ?thesis by (cases xs) (auto simp: marshal_array_PList)
next
  case (Some items)
  from run have "fst (marshal_array_loop e s xs []) = Inr r"
    by (simp add: marshal_array_PList)
  with marshal_array_loop_iff [OF Some, of e xs "[]" r]
  obtain ys where r: "r = PList ys"
    and all: "list_all2 (\<lambda>x y. fst (marshal_schema_object e items x) = Inr y) xs ys"
    by auto
  have "leaves y \<subseteq> walk_leaves e s (PList xs)" if "y \<in> set ys" for y
  proof -
    from that obtain i where i: "i < length ys" and y: "y = ys ! i"
      by (auto simp: in_set_conv_nth)
    from all have len: "length xs = length ys" by (rule list_all2_lengthD)
    from list_all2_nthD2 [OF all i] y
    have m: "fst (marshal_schema_object e items (xs ! i)) = Inr y" by simp
    from i len have mem: "xs ! i \<in> set xs" by simp
    from ih [OF mem m] walk_leaves_element [OF kind Some mem] show ?thesis by blast
  qed
  with r show ?thesis by auto
qed

lemma marshal_object_walk_leaves:
  assumes ih: "\<And>x t r. x \<in> snd ` set kvs \<Longrightarrow> fst (marshal_schema_object e t x) = Inr r \<Longrightarrow>
                 leaves r \<subseteq> walk_leaves e t x"
    and kind: "dispatch e s = Model_kind \<or> dispatch e s = Object_kind"
    and run: "fst (marshal_object e s (PDict kvs)) = Inr r"
  shows "leaves r \<subseteq> walk_leaves e s (PDict kvs)"
proof -
  from run have "fst (marshal_object_loop e s (PDict kvs) kvs []) = Inr r"
    by (simp add: marshal_object_PDict)
  from marshal_object_loop_values [OF this]
  obtain out where r: "r = PDict out"
    and vals: "snd ` set out \<subseteq>
         {w. \<exists>k v. (k, v) \<in> set kvs \<and> v \<noteq> PNone \<and> marshaled_entry e s (PDict kvs) k v w}"
    by auto
  have "leaves w \<subseteq> walk_leaves e s (PDict kvs)" if "w \<in> snd ` set out" for w
  proof -
    from that vals obtain k v where in_kvs: "(k, v) \<in> set kvs" and nn: "v \<noteq> PNone"
      and entry: "marshaled_entry e s (PDict kvs) k v w"
      by blast
    from in_kvs have v: "v \<in> snd ` set kvs" by force
    show ?thesis
    proof (cases "get_spec_for_prop e s (PDict kvs) k")
      case None
      with entry have "w = v" by (simp add: marshaled_entry_def)
      with walk_leaves_unspecified [OF kind in_kvs nn None] show ?thesis by simp
    next
      case (Some ps)
      with entry have "fst (marshal_schema_object e ps v) = Inr w"
        by (simp add: marshaled_entry_def)
      from ih [OF v this] walk_leaves_property [OF kind in_kvs nn Some]
      show ?thesis by blast
    qed
  qed
  with r show ?thesis by auto
qed

lemma marshal_schema_object_branch:
  assumes "fst (marshal_schema_object e s v) = Inr r"
  shows "(dispatch e s = Primitive_kind \<and> fst (marshal_primitive e s v) = Inr r) \<or>
         (dispatch e s = Array_kind \<and> (\<exists>xs. v = PList xs) \<and> fst (marshal_array e s v) = Inr r) \<or>
         ((dispatch e s = Model_kind \<or> dispatch e s = Object_kind) \<and> (\<exists>kvs. v = PDict kvs) \<and>
            fst (marshal_object e s v) = Inr r) \<or>
         (dispatch e s = Model_kind \<and>
            (\<exists>c attrs. v = PModel c attrs \<and>
               fst (marshal_object e s (PDict (dict_of attrs []))) = Inr r)) \<or>
         (dispatch e s = File_kind \<and> r = v)"
proof (cases "dispatch e s")
  case Primitive_kind
  with assms show ?thesis by (simp add: marshal_schema_object_dispatch)
next
  case Array_kind
  with assms have run: "fst (marshal_array e s v) = Inr r"
    by (simp add: marshal_schema_object_dispatch)
  with marshal_array_Inr_PList [OF run] Array_kind show ?thesis by blast
next
  case Model_kind
  show ?thesis
  proof (cases "is_dict_like v")
    case True
    with assms Model_kind have run: "fst (marshal_object e s v) = Inr r"
      by (simp add: marshal_schema_object_dispatch)
    with marshal_object_Inr_PDict [OF run] Model_kind show ?thesis by blast
  next
    case False
    with assms Model_kind have run: "fst (marshal_model e s v) = Inr r"
      by (simp add: marshal_schema_object_dispatch)
    with marshal_model_Inr [OF run] Model_kind show ?thesis by blast
  qed
next
  case Object_kind
  with assms have run: "fst (marshal_object e s v) = Inr r"
    by (simp add: marshal_schema_object_dispatch)
  with marshal_object_Inr_PDict [OF run] Object_kind show ?thesis by blast
next
  case File_kind
  with assms show ?thesis by (simp add: marshal_schema_object_dispatch)
next
  case Unknown_kind
  with assms show ?thesis by (simp add: marshal_schema_object_dispatch)
qed

lemma marshal_scalar_walk_leaves:
  assumes "fst (marshal_schema_object e s v) = Inr r"
    and "\<And>xs. v \<noteq> PList xs" and "\<And>kvs. v \<noteq> PDict kvs" and "\<And>c attrs. v \<noteq> PModel c attrs"
  shows "leaves r \<subseteq> walk_leaves e s v"
proof -
  from marshal_schema_object_branch [OF assms(1)] assms(2-4)
  consider "dispatch e s = Primitive_kind" and "fst (marshal_primitive e s v) = Inr r"
    | "dispatch e s = File_kind" and "r = v" by blast
  then show ?thesis
  proof cases
    case 1
    then show ?thesis by (rule walk_leaves_primitive)
  next
    case 2
    with walk_leaves_file [of e s v] show ?thesis by simp
  qed
qed

lemma marshal_schema_object_walk_leaves:
  "fst (marshal_schema_object e s v) = Inr r \<Longrightarrow> leaves r \<subseteq> walk_leaves e s v"
proof (induction v arbitrary: s r)
  case (PList xs)
  from marshal_schema_object_branch [OF PList.prems]
  consider "dispatch e s = Primitive_kind" and "fst (marshal_primitive e s (PList xs)) = Inr r"
    | "dispatch e s = Array_kind" and "fst (marshal_array e s (PList xs)) = Inr r"
    | "dispatch e s = File_kind" and "r = PList xs" by auto
  then show ?case
  proof cases
    case 1
    then show ?thesis by (rule walk_leaves_primitive)
  next
    case 2
    show ?thesis by (rule marshal_array_walk_leaves [OF _ 2]) (rule PList.IH)
  next
    case 3
    with walk_leaves_file [of e s "PList xs"] show ?thesis by simp
  qed
next
  case (PDict kvs)
  have ih: "leaves r \<subseteq> walk_leaves e t x"
    if "x \<in> snd ` set kvs" and "fst (marshal_schema_object e t x) = Inr r" for x t r
  proof -
    from that(1) obtain k where "(k, x) \<in> set kvs" by auto
    from PDict.IH [OF this _ that(2)] show ?thesis by simp
  qed
  from marshal_schema_object_branch [OF PDict.prems]
  consider "dispatch e s = Primitive_kind" and "fst (marshal_primitive e s (PDict kvs)) = Inr r"
    | "dispatch e s = Model_kind \<or> dispatch e s = Object_kind"
      and "fst (marshal_object e s (PDict kvs)) = Inr r"
    | "dispatch e s = File_kind" and "r = PDict kvs" by auto
  then show ?case
  proof cases
    case 1
    then show ?thesis by (rule walk_leaves_primitive)
  next
    case 2
    from marshal_object_walk_leaves [OF ih 2] show ?thesis by simp
  next
    case 3
    with walk_leaves_file [of e s "PDict kvs"] show ?thesis by simp
  qed
next
  case (PModel c attrs)
  have ih: "leaves r \<subseteq> walk_leaves e t x"
    if "x \<in> snd ` set (dict_of attrs [])" and "fst (marshal_schema_object e t x) = Inr r" for x t r
  proof -
    from that(1) values_dict_of [of attrs "[]"] have "x \<in> snd ` set attrs" by auto
    then obtain k where "(k, x) \<in> set attrs" by auto
    from PModel.IH [OF this _ that(2)] show ?thesis by simp
  qed
  from marshal_schema_object_branch [OF PModel.prems]
  consider "dispatch e s = Primitive_kind" and "fst (marshal_primitive e s (PModel c attrs)) = Inr r"
    | "dispatch e s = Model_kind"
      and "fst (marshal_object e s (PDict (dict_of attrs []))) = Inr r"
    | "dispatch e s = File_kind" and "r = PModel c attrs" by auto
  then show ?case
  proof cases
    case 1
    then show ?thesis by (rule walk_leaves_primitive)
  next
    case 2
    from 2(1) have "dispatch e s = Model_kind \<or> dispatch e s = Object_kind" by simp
    from marshal_object_walk_leaves [OF ih this 2(2)] walk_leaves_model [OF 2(1), of attrs c]
    show ?thesis by blast
  next
    case 3
    with walk_leaves_file [of e s "PModel c attrs"] show ?thesis by simp
  qed
next
  case PNone
  then show ?case by (rule marshal_scalar_walk_leaves) simp_all
next
  case (PBool b)
  then show ?case by (rule marshal_scalar_walk_leaves) simp_all
next
  case (PInt i)
  then show ?case by (rule marshal_scalar_walk_leaves) simp_all
next
  case (PFloat f)
  then show ?case by (rule marshal_scalar_walk_leaves) simp_all
next
  case (PStr x)
  then show ?case by (rule marshal_scalar_walk_leaves) simp_all
next
  case (PObject c n)
  then show ?case by (rule marshal_scalar_walk_leaves) simp_all
qed

section \<open>Evaluating the engine on concrete inputs\<close>

lemma formatter_to_wire_None: "formatter_to_wire fs s PNone = (Inr PNone, [])"
  by (simp add: formatter_to_wire_def)

lemmas engine_simps =
  marshal_schema_object.simps marshal_array.simps marshal_object.simps marshal_model.simps
  marshal_primitive_def formatter_to_wire_def get_format_def lift_raised_def
  has_default_def get_default_def is_required_def has_format_def schema_get_format_def
  is_model_def example_env_def tag_format_def register_format_def primitive_spec_def
  pet_class_def puppy_class_def other_pet_class_def

lemmas example_simps = engine_simps tagged_spec_def required_spec_def thing_spec_def
  default_spec_def null_default_spec_def unknown_format_spec_def empty_format_spec_def
  marked_array_spec_def pet_spec_def marked_string_spec_def

text \<open>The places the walk of a tagged pet comes to.\<close>

lemma visits_tagged_string:
  "visits example_env tagged_spec (PStr ''a'') p \<Longrightarrow> p = At_primitive tagged_spec (PStr ''a'')"
  by (erule visits.cases) (auto simp: dispatch_def example_simps)

lemma visits_tagged_dict:
  assumes "visits example_env pet_spec (PDict [(''born'', PObject ''date'' 0), (''label'', PStr ''a'')]) p"
  shows "p = At_unspecified (PObject ''date'' 0) \<or> p = At_primitive tagged_spec (PStr ''a'')"
  using assms
proof (cases rule: visits.cases)
  case (visit_unspecified k x)
  then show ?thesis by (auto simp: example_simps split: if_splits)
next
  case (visit_property k x prop_spec)
  then have "x = PStr ''a''" and "prop_spec = tagged_spec"
    by (auto simp: example_simps split: if_splits)
  with visit_property visits_tagged_string [of p] show ?thesis by simp
qed (auto simp: dispatch_def example_simps)

lemma visits_tagged_pet:
  assumes "visits example_env pet_spec tagged_pet p"
  shows "p = At_unspecified (PObject ''date'' 0) \<or> p = At_primitive tagged_spec (PStr ''a'')"
  using assms unfolding tagged_pet_def
proof (cases rule: visits.cases)
  case visit_model
  then show ?thesis using visits_tagged_dict [of p] by simp
qed (auto simp: dispatch_def example_simps)

section \<open>Primitive nulls\<close>

text \<open>
  Claim C10. For a primitive spec with no default that is not marked required, marshaling
  \<^verbatim>\<open>None\<close> returns \<^verbatim>\<open>None\<close>: the value goes to \<open>formatter_to_wire\<close>, which returns it
  unchanged and without a warning whatever format the spec declares and whatever is
  registered. So a null survives at the top level, and at every position of an array whose
  items are such primitives: an array of \<open>n\<close> nulls marshals to \<open>n\<close> nulls, and whenever an
  array marshals, its result is as long as the input and null wherever the input is.
\<close>

theorem primitive_null_survives:
  assumes "\<not> has_default s" and "\<not> is_required s"
  shows "formatter_to_wire (formatters e) s PNone = (Inr PNone, []) \<and>
    marshal_primitive e s PNone = (Inr PNone, []) \<and>
    (spec_type s \<in> set (SWAGGER_PRIMITIVES e) \<longrightarrow>
       marshal_schema_object e s PNone = (Inr PNone, []) \<and>
       (spec_items a = Some s \<longrightarrow>
          fst (marshal_array e a (PList (replicate n PNone))) = Inr (PList (replicate n PNone)) \<and>
          (\<forall>xs ys. fst (marshal_array e a (PList xs)) = Inr (PList ys) \<longrightarrow>
             length ys = length xs \<and> (\<forall>i < length xs. xs ! i = PNone \<longrightarrow> ys ! i = PNone))))"
proof -
  have prim: "marshal_primitive e s PNone = (Inr PNone, [])"
    using assms by (simp add: marshal_primitive_def formatter_to_wire_None)
  have top: "marshal_schema_object e s PNone = (Inr PNone, [])"
    if "spec_type s \<in> set (SWAGGER_PRIMITIVES e)"
    using that prim by (simp add: marshal_schema_object.simps)
  have arr1: "fst (marshal_array e a (PList (replicate n PNone))) = Inr (PList (replicate n PNone))"
    if "spec_type s \<in> set (SWAGGER_PRIMITIVES e)" and "spec_items a = Some s"
  proof -
    have "list_all2 (\<lambda>x y. fst (marshal_schema_object e s x) = Inr y)
            (replicate n PNone) (replicate n PNone)"
      using top [OF that(1)] by (simp add: list_all2_conv_all_nth)
    then show ?thesis
      using marshal_array_loop_iff [OF that(2), of e "replicate n PNone" "[]" "PList (replicate n PNone)"]
      by (simp add: marshal_array_PList)
  qed
  have arr2: "length ys = length xs \<and> (\<forall>i < length xs. xs ! i = PNone \<longrightarrow> ys ! i = PNone)"
    if "spec_type s \<in> set (SWAGGER_PRIMITIVES e)" and "spec_items a = Some s"
      and "fst (marshal_array e a (PList xs)) = Inr (PList ys)" for xs ys
  proof -
    from that(3) marshal_array_loop_iff [OF that(2), of e xs "[]" "PList ys"]
    have "list_all2 (\<lambda>x y. fst (marshal_schema_object e s x) = Inr y) xs ys"
      by (simp add: marshal_array_PList)
    then show ?thesis
      using top [OF that(1)] by (auto simp: list_all2_conv_all_nth)
  qed
  show ?thesis
    using prim top arr1 arr2 by (simp add: formatter_to_wire_None)
qed

theorem primitive_null_survives_witness:
  "\<not> has_default (Spec ''string'' (Some ''tag'') None False None [] None) \<and>
   \<not> is_required (Spec ''string'' (Some ''tag'') None False None [] None) \<and>
   marshal_primitive example_env (Spec ''string'' (Some ''tag'') None False None [] None) PNone
     = (Inr PNone, []) \<and>
   marshal_schema_object example_env (Spec ''string'' (Some ''tag'') None False None [] None) PNone
     = (Inr PNone, []) \<and>
   fst (marshal_array example_env
          (Spec ''array'' None None False
             (Some (Spec ''string'' (Some ''tag'') None False None [] None)) [] None)
          (PList [PNone, PNone]))
     = Inr (PList [PNone, PNone])"
  using primitive_null_survives
    [of "Spec ''string'' (Some ''tag'') None False None [] None" example_env
        "Spec ''array'' None None False
           (Some (Spec ''string'' (Some ''tag'') None False None [] None)) [] None"
        "Suc (Suc 0)"]
  by (simp add: has_default_def is_required_def example_env_def)

section \<open>Arrays\<close>

text \<open>
  Claim C5. \<open>marshal_array\<close> raises the mapping error for a value that is not list-like.
  For a list of length \<open>n\<close> and an array spec with items, it returns \<open>r\<close> exactly when \<open>r\<close>
  is a list of length \<open>n\<close> whose \<open>i\<close>-th element is what \<open>marshal_schema_object\<close> returns
  for the \<open>i\<close>-th input element against the items spec: same order, nothing filtered, and
  no result when an element fails.
\<close>

theorem marshal_array_spec:
  "(\<not> is_list_like v \<longrightarrow>
      marshal_array e s v = (Inl (SwaggerMappingError (Expected_list_like v)), [])) \<and>
   (spec_items s = Some items \<longrightarrow>
      (fst (marshal_array e s (PList xs)) = Inr r \<longleftrightarrow>
         (\<exists>ys. r = PList ys \<and> length ys = length xs \<and>
            (\<forall>i < length xs. fst (marshal_schema_object e items (xs ! i)) = Inr (ys ! i)))))"
  using marshal_array_loop_iff [of s items e xs "[]" r]
  by (auto simp: marshal_array_not_list_like marshal_array_PList list_all2_conv_all_nth)

theorem marshal_array_spec_witness:
  "\<not> is_list_like (PStr ''ab'') \<and>
   marshal_array example_env (Spec ''array'' None None False (Some (primitive_spec ''string'')) [] None)
     (PStr ''ab'') = (Inl (SwaggerMappingError (Expected_list_like (PStr ''ab''))), []) \<and>
   spec_items (Spec ''array'' None None False (Some (primitive_spec ''string'')) [] None)
     = Some (primitive_spec ''string'') \<and>
   fst (marshal_array example_env
          (Spec ''array'' None None False (Some (primitive_spec ''string'')) [] None)
          (PList [PStr ''b'', PNone, PStr ''a'']))
     = Inr (PList [PStr ''b'', PNone, PStr ''a''])"
proof -
  have elem: "fst (marshal_schema_object example_env (primitive_spec ''string'') x) = Inr x" for x
    by (simp add: engine_simps)
  have "\<forall>i < length [PStr ''b'', PNone, PStr ''a''].
          fst (marshal_schema_object example_env (primitive_spec ''string'')
                 ([PStr ''b'', PNone, PStr ''a''] ! i))
            = Inr ([PStr ''b'', PNone, PStr ''a''] ! i)"
    by (simp add: elem)
  with marshal_array_spec
    [of "PStr ''ab''" example_env
        "Spec ''array'' None None False (Some (primitive_spec ''string'')) [] None"
        "primitive_spec ''string''" "[PStr ''b'', PNone, PStr ''a'']"
        "PList [PStr ''b'', PNone, PStr ''a'']"]
  show ?thesis by simp
qed

section \<open>Objects\<close>

text \<open>
  Claim C6. \<open>marshal_object\<close> raises the mapping error for a value that is not dict-like.
  For a dict (its keys distinct, as a dict's are) on which it returns, the result is a dict
  in which, for every item of the input: a \<^verbatim>\<open>None\<close> value leaves the key absent; a value
  with a property spec is stored under the same key as \<open>marshal_schema_object\<close> returns
  it; a value with no property spec is stored under the same key unchanged. It does return
  when every value that has a property spec and is not \<^verbatim>\<open>None\<close> marshals.
\<close>

theorem marshal_object_spec:
  "(\<not> is_dict_like v \<longrightarrow>
      marshal_object e s v = (Inl (SwaggerMappingError (Expected_dict_like v)), [])) \<and>
   (distinct (map fst kvs) \<and> fst (marshal_object e s (PDict kvs)) = Inr r \<longrightarrow>
      (\<exists>out. r = PDict out \<and>
         (\<forall>(k, x) \<in> set kvs.
            (x = PNone \<longrightarrow> map_of out k = None) \<and>
            (x \<noteq> PNone \<longrightarrow>
               (case get_spec_for_prop e s (PDict kvs) k of
                  Some prop_spec \<Rightarrow>
                    \<exists>w. fst (marshal_schema_object e prop_spec x) = Inr w \<and> map_of out k = Some w
                | None \<Rightarrow> map_of out k = Some x))))) \<and>
   ((\<forall>(k, x) \<in> set kvs. x \<noteq> PNone \<longrightarrow>
        (\<forall>prop_spec. get_spec_for_prop e s (PDict kvs) k = Some prop_spec \<longrightarrow>
           (\<exists>w. fst (marshal_schema_object e prop_spec x) = Inr w))) \<longrightarrow>
      (\<exists>out. fst (marshal_object e s (PDict kvs)) = Inr (PDict out)))"
proof (intro conjI impI)
  assume "\<not> is_dict_like v"
  then show "marshal_object e s v = (Inl (SwaggerMappingError (Expected_dict_like v)), [])"
    by (rule marshal_object_not_dict_like)
next
  assume a: "distinct (map fst kvs) \<and> fst (marshal_object e s (PDict kvs)) = Inr r"
  then have "fst (marshal_object_loop e s (PDict kvs) kvs []) = Inr r"
    by (simp add: marshal_object_PDict)
  from marshal_object_loop_Inr [OF this] a obtain out where out: "r = PDict out"
    and each: "\<And>k. case map_of kvs k of
              None \<Rightarrow> map_of out k = map_of [] k
            | Some v \<Rightarrow>
                if v = PNone then map_of out k = map_of [] k
                else \<exists>w. marshaled_entry e s (PDict kvs) k v w \<and> map_of out k = Some w"
    by blast
  have "(x = PNone \<longrightarrow> map_of out k = None) \<and>
        (x \<noteq> PNone \<longrightarrow>
           (case get_spec_for_prop e s (PDict kvs) k of
              Some prop_spec \<Rightarrow>
                \<exists>w. fst (marshal_schema_object e prop_spec x) = Inr w \<and> map_of out k = Some w
            | None \<Rightarrow> map_of out k = Some x))" if "(k, x) \<in> set kvs" for k x
  proof -
    from that a have "map_of kvs k = Some x" by simp
    with each [of k] show ?thesis
      by (auto simp: marshaled_entry_def split: option.splits)
  qed
  with out show "\<exists>out. r = PDict out \<and>
         (\<forall>(k, x) \<in> set kvs.
            (x = PNone \<longrightarrow> map_of out k = None) \<and>
            (x \<noteq> PNone \<longrightarrow>
               (case get_spec_for_prop e s (PDict kvs) k of
                  Some prop_spec \<Rightarrow>
                    \<exists>w. fst (marshal_schema_object e prop_spec x) = Inr w \<and> map_of out k = Some w
                | None \<Rightarrow> map_of out k = Some x)))"
    by blast
next
  assume "\<forall>(k, x) \<in> set kvs. x \<noteq> PNone \<longrightarrow>
        (\<forall>prop_spec. get_spec_for_prop e s (PDict kvs) k = Some prop_spec \<longrightarrow>
           (\<exists>w. fst (marshal_schema_object e prop_spec x) = Inr w))"
  then have "\<forall>(k, x) \<in> set kvs. x \<noteq> PNone \<longrightarrow> (\<exists>w. marshaled_entry e s (PDict kvs) k x w)"
    by (simp add: marshaled_entry_ex)
  from marshal_object_loop_succeeds [OF this, of "[]"]
  show "\<exists>out. fst (marshal_object e s (PDict kvs)) = Inr (PDict out)"
    by (simp add: marshal_object_PDict)
qed

theorem marshal_object_spec_witness:
  "\<not> is_dict_like (PInt 3) \<and>
   marshal_object example_env thing_spec (PInt 3)
     = (Inl (SwaggerMappingError (Expected_dict_like (PInt 3))), []) \<and>
   distinct (map fst [(''seen'', PNone), (''extra'', PStr ''x''), (''label'', PStr ''a'')]) \<and>
   fst (marshal_object example_env thing_spec
          (PDict [(''seen'', PNone), (''extra'', PStr ''x''), (''label'', PStr ''a'')]))
     = Inr (PDict [(''extra'', PStr ''x''), (''label'', PStr ''#a'')]) \<and>
   map_of [(''extra'', PStr ''x''), (''label'', PStr ''#a'')] ''seen'' = None"
  using marshal_object_spec
    [of "PInt 3" example_env thing_spec
        "[(''seen'', PNone), (''extra'', PStr ''x''), (''label'', PStr ''a'')]"
        "PDict [(''extra'', PStr ''x''), (''label'', PStr ''#a'')]"]
  by (simp add: example_simps)

text \<open>
  Claim C7. The null-drop of the object loop does not look at the property's spec. For a
  dict that holds \<^verbatim>\<open>None\<close> under key \<open>k\<close>: if \<open>marshal_object\<close> raises, the error is the
  one raised for another key's value that is not \<^verbatim>\<open>None\<close>; if it returns, \<open>k\<close> is absent
  from the result; and it does return when the other values marshal. Nothing is assumed
  about the spec of \<open>k\<close>: it may be required and have no default, in which case
  \<open>marshal_primitive\<close> on the same \<^verbatim>\<open>None\<close> raises the required-value error, as the
  concrete run shows.
\<close>

theorem required_null_property_dropped:
  assumes "(k, PNone) \<in> set kvs" and "distinct (map fst kvs)"
  shows "(\<forall>err. fst (marshal_object e s (PDict kvs)) = Inl err \<longrightarrow>
            (\<exists>(k', x) \<in> set kvs. k' \<noteq> k \<and> x \<noteq> PNone \<and>
               (\<exists>prop_spec. get_spec_for_prop e s (PDict kvs) k' = Some prop_spec \<and>
                  fst (marshal_schema_object e prop_spec x) = Inl err))) \<and>
         (\<forall>r. fst (marshal_object e s (PDict kvs)) = Inr r \<longrightarrow>
            (\<exists>out. r = PDict out \<and> map_of out k = None)) \<and>
         ((\<forall>(k', x) \<in> set kvs. x \<noteq> PNone \<longrightarrow> (\<exists>w. marshaled_entry e s (PDict kvs) k' x w)) \<longrightarrow>
            (\<exists>out. fst (marshal_object e s (PDict kvs)) = Inr (PDict out) \<and> map_of out k = None))"
proof -
  from assms have at_k: "map_of kvs k = Some PNone" by simp
  have inr: "\<exists>out. r = PDict out \<and> map_of out k = None"
    if "fst (marshal_object e s (PDict kvs)) = Inr r" for r
  proof -
    from that have "fst (marshal_object_loop e s (PDict kvs) kvs []) = Inr r"
      by (simp add: marshal_object_PDict)
    from marshal_object_loop_Inr [OF this assms(2)] obtain out where "r = PDict out"
      and "case map_of kvs k of
              None \<Rightarrow> map_of out k = map_of [] k
            | Some v \<Rightarrow>
                if v = PNone then map_of out k = map_of [] k
                else \<exists>w. marshaled_entry e s (PDict kvs) k v w \<and> map_of out k = Some w"
      by blast
    with at_k show ?thesis by simp
  qed
  have inl: "\<exists>(k', x) \<in> set kvs. k' \<noteq> k \<and> x \<noteq> PNone \<and>
               (\<exists>prop_spec. get_spec_for_prop e s (PDict kvs) k' = Some prop_spec \<and>
                  fst (marshal_schema_object e prop_spec x) = Inl err)"
    if "fst (marshal_object e s (PDict kvs)) = Inl err" for err
  proof -
    from that have "fst (marshal_object_loop e s (PDict kvs) kvs []) = Inl err"
      by (simp add: marshal_object_PDict)
    from marshal_object_loop_Inl [OF this] obtain k' x where in_kvs: "(k', x) \<in> set kvs"
      and nn: "x \<noteq> PNone"
      and fails: "\<exists>ps. get_spec_for_prop e s (PDict kvs) k' = Some ps \<and>
                  fst (marshal_schema_object e ps x) = Inl err"
      by blast
    from in_kvs assms(2) have "map_of kvs k' = Some x" by simp
    with at_k nn have "k' \<noteq> k" by auto
    with in_kvs nn fails show ?thesis by blast
  qed
  have ok: "\<exists>out. fst (marshal_object e s (PDict kvs)) = Inr (PDict out) \<and> map_of out k = None"
    if "\<forall>(k', x) \<in> set kvs. x \<noteq> PNone \<longrightarrow> (\<exists>w. marshaled_entry e s (PDict kvs) k' x w)"
  proof -
    from marshal_object_loop_succeeds [OF that, of "[]"] obtain out
      where run: "fst (marshal_object e s (PDict kvs)) = Inr (PDict out)"
      by (auto simp: marshal_object_PDict)
    from inr [OF run] show ?thesis using run by auto
  qed
  from inl inr ok show ?thesis by blast
qed

theorem required_null_property_dropped_witness:
  "(''name'', PNone) \<in> set [(''name'', PNone), (''label'', PStr ''a'')] \<and>
   distinct (map fst [(''name'', PNone), (''label'', PStr ''a'')]) \<and>
   get_spec_for_prop example_env thing_spec
      (PDict [(''name'', PNone), (''label'', PStr ''a'')]) ''name'' = Some required_spec \<and>
   is_required required_spec \<and> \<not> has_default required_spec \<and>
   fst (marshal_schema_object example_env required_spec PNone)
     = Inl (SwaggerMappingError (Required_value required_spec)) \<and>
   fst (marshal_object example_env thing_spec (PDict [(''name'', PNone), (''label'', PStr ''a'')]))
     = Inr (PDict [(''label'', PStr ''#a'')]) \<and>
   map_of [(''label'', PStr ''#a'')] ''name'' = None"
  using required_null_property_dropped
    [of "''name''" "[(''name'', PNone), (''label'', PStr ''a'')]" example_env thing_spec]
  by (simp add: example_simps)

section \<open>Primitives: defaults and required values\<close>

text \<open>
  Claim C1, as the code has it. For a primitive spec that declares a default which is not
  \<^verbatim>\<open>None\<close>, or that is not marked required, marshaling \<^verbatim>\<open>None\<close> returns the default
  as it is declared and emits no warning, whatever format the spec declares and whatever
  the registry holds: \<open>formatter_to_wire\<close> is not called on that path.
\<close>

theorem default_used_verbatim:
  assumes "has_default s" and "get_default s \<noteq> PNone \<or> \<not> is_required s"
  shows "marshal_primitive e s PNone = (Inr (get_default s), [])"
  using assms by (auto simp: marshal_primitive_def)

theorem default_used_verbatim_witness:
  "has_default default_spec \<and> get_default default_spec \<noteq> PNone \<and>
   has_format default_spec \<and>
   formatter_to_wire (formatters example_env) default_spec (get_default default_spec)
     = (Inr (PStr ''#none''), []) \<and>
   marshal_primitive example_env default_spec PNone = (Inr (PStr ''none''), [])"
  using default_used_verbatim [of default_spec example_env]
  by (simp add: example_simps)

text \<open>
  Claim C1 as stated fails for a required spec whose declared default is \<^verbatim>\<open>None\<close>: the
  default is substituted, the value is still \<^verbatim>\<open>None\<close>, and the required check raises.
\<close>

theorem null_default_required_raises:
  "has_default null_default_spec \<and>
   marshal_primitive example_env null_default_spec PNone
     \<noteq> (Inr (get_default null_default_spec), [])"
  by (simp add: example_simps)

text \<open>
  Claim C2, as the code has it. \<open>marshal_primitive\<close> raises the required-value error
  exactly when the value is \<^verbatim>\<open>None\<close>, the spec is marked required, and the spec declares
  no default or declares the default \<^verbatim>\<open>None\<close>; the error names the spec. So it is raised
  for a required spec with no default and the value \<^verbatim>\<open>None\<close>, and never for a value that
  is not \<^verbatim>\<open>None\<close> nor for \<^verbatim>\<open>None\<close> with a default that is not \<^verbatim>\<open>None\<close>.
\<close>

theorem required_value_error_iff:
  "fst (marshal_primitive e s v) = Inl (SwaggerMappingError (Required_value t)) \<longleftrightarrow>
     t = s \<and> v = PNone \<and> is_required s \<and> (\<not> has_default s \<or> get_default s = PNone)"
proof (cases "v = PNone")
  case True
  then show ?thesis
    by (cases "spec_default s")
      (auto simp: marshal_primitive_def Let_def formatter_to_wire_None has_default_def
        get_default_def)
next
  case False
  have "fst (formatter_to_wire fs s v) \<noteq> Inl (SwaggerMappingError m)" for fs m
    by (auto simp: formatter_to_wire_def lift_raised_def split: prod.splits option.splits sum.splits)
  with False show ?thesis by (simp add: marshal_primitive_def Let_def)
qed

theorem required_value_error_iff_witness:
  "is_required required_spec \<and> \<not> has_default required_spec \<and>
   fst (marshal_primitive example_env required_spec PNone)
     = Inl (SwaggerMappingError (Required_value required_spec)) \<and>
   fst (marshal_primitive example_env required_spec (PStr ''a'')) = Inr (PStr ''a'') \<and>
   fst (marshal_primitive example_env default_spec PNone) = Inr (PStr ''none'')"
  using required_value_error_iff [of example_env required_spec PNone required_spec]
  by (simp add: example_simps)

text \<open>
  Claim C2 as stated fails for \<^verbatim>\<open>None\<close> with a default: when the declared default is
  \<^verbatim>\<open>None\<close> and the spec is required, the required-value error is raised.
\<close>

theorem null_default_required_error:
  "has_default null_default_spec \<and>
   fst (marshal_primitive example_env null_default_spec PNone)
     = Inl (SwaggerMappingError (Required_value null_default_spec))"
  by (simp add: example_simps)

section \<open>The registry's encode\<close>

text \<open>
  Claim C3, as the code has it. \<open>formatter_to_wire\<close> returns the value unchanged, with no
  warning, when the value is \<^verbatim>\<open>None\<close> or the spec has no format. When the format name is
  registered it returns that descriptor's \<open>to_wire\<close> applied to the value (or what that
  function raised), with no warning. When the format name is not registered it returns
  the value unchanged and never raises; it emits the warning when the name is not empty,
  and no warning when the name is the empty string.
\<close>

theorem formatter_to_wire_cases:
  "formatter_to_wire fs s v =
     (if v = PNone \<or> \<not> has_format s then (Inr v, [])
      else (case fs (schema_get_format s) of
              Some formatter \<Rightarrow> (lift_raised (to_wire formatter v), [])
            | None \<Rightarrow>
                (Inr v,
                 if schema_get_format s = [] then []
                 else [schema_get_format s @ '' format is not registered with bravado-core!''])))"
  by (rule formatter_to_wire_unfold)

theorem formatter_to_wire_cases_witness:
  "formatter_to_wire (formatters example_env) unknown_format_spec (PStr ''abc'')
     = (Inr (PStr ''abc''), [''custom-foo format is not registered with bravado-core!'']) \<and>
   formatter_to_wire (formatters example_env) tagged_spec (PStr ''abc'') = (Inr (PStr ''#abc''), []) \<and>
   formatter_to_wire (formatters example_env) tagged_spec (PInt 1) = (Inl (Raised ''TypeError''), [])"
  using formatter_to_wire_cases [of "formatters example_env" unknown_format_spec "PStr ''abc''"]
    formatter_to_wire_cases [of "formatters example_env" tagged_spec "PStr ''abc''"]
    formatter_to_wire_cases [of "formatters example_env" tagged_spec "PInt 1"]
  by (simp add: example_simps)

text \<open>
  Claim C3 as stated fails for the empty format name: it is not registered, the value is
  returned unchanged, and no warning is emitted.
\<close>

theorem empty_format_no_warning:
  "has_format empty_format_spec \<and>
   formatters example_env (schema_get_format empty_format_spec) = None \<and>
   formatter_to_wire (formatters example_env) empty_format_spec (PStr ''abc'')
     = (Inr (PStr ''abc''), [])"
  by (simp add: example_simps)

section \<open>Dispatch on a model marker\<close>

text \<open>
  Claim C9, as the code has it. A spec carrying a model marker is dispatched in the order
  of the tests: a primitive type goes to \<open>marshal_primitive\<close> and the type \<^verbatim>\<open>array\<close> to
  \<open>marshal_array\<close>, marker or not; for every other type (\<^verbatim>\<open>object\<close>, \<^verbatim>\<open>file\<close>, or unknown)
  the marker decides, before the object branch: a dict-like value is marshaled with
  \<open>marshal_object\<close>, without looking the model up, and any other value with
  \<open>marshal_model\<close>. \<open>marshal_model\<close> raises the mapping error for an unregistered model name
  and for a value that is not an instance of the registered class (an instance of a
  subclass is one; an instance of another class of the same name is not), and otherwise
  marshals the instance's attributes as an object.
\<close>

theorem model_dispatch:
  assumes "is_model s"
  shows "marshal_schema_object e s v =
      (if spec_type s \<in> set (SWAGGER_PRIMITIVES e) then marshal_primitive e s v
       else if spec_type s = ''array'' then marshal_array e s v
       else if is_dict_like v then marshal_object e s v
       else marshal_model e s v) \<and>
    (\<exists>model_name. spec_model s = Some model_name \<and>
       marshal_model e s v =
        (case definitions e model_name of
           None \<Rightarrow> (Inl (SwaggerMappingError (Unknown_model model_name)), [])
         | Some model_type \<Rightarrow>
             if isinstance e v model_type
             then marshal_object e s (PDict (dict_of (attributes v) []))
             else (Inl (SwaggerMappingError (Expected_model_of_type model_name v)), [])))"
  using assms
  by (auto simp: marshal_schema_object.simps marshal_model.simps is_model_def split: option.splits)

theorem model_dispatch_witness:
  "is_model pet_spec \<and> is_model marked_string_spec \<and> is_model marked_array_spec \<and>
   marshal_schema_object example_env pet_spec (PDict [(''label'', PStr ''a''), (''age'', PNone)])
     = (Inr (PDict [(''label'', PStr ''#a'')]), []) \<and>
   marshal_schema_object (example_env\<lparr>definitions := Map.empty\<rparr>) pet_spec
       (PDict [(''label'', PStr ''a''), (''age'', PNone)])
     = (Inr (PDict [(''label'', PStr ''#a'')]), []) \<and>
   marshal_schema_object example_env pet_spec
       (PModel pet_class [(''age'', PNone), (''label'', PStr ''a'')])
     = (Inr (PDict [(''label'', PStr ''#a'')]), []) \<and>
   marshal_schema_object example_env pet_spec (PModel puppy_class [(''label'', PStr ''b'')])
     = (Inr (PDict [(''label'', PStr ''#b'')]), []) \<and>
   marshal_schema_object example_env pet_spec (PModel other_pet_class [])
     = (Inl (SwaggerMappingError (Expected_model_of_type ''Pet'' (PModel other_pet_class []))), []) \<and>
   marshal_schema_object example_env pet_spec (PInt 3)
     = (Inl (SwaggerMappingError (Expected_model_of_type ''Pet'' (PInt 3))), []) \<and>
   marshal_schema_object (example_env\<lparr>definitions := Map.empty\<rparr>) pet_spec (PModel pet_class [])
     = (Inl (SwaggerMappingError (Unknown_model ''Pet'')), []) \<and>
   marshal_schema_object example_env marked_string_spec (PModel pet_class [])
     = marshal_primitive example_env marked_string_spec (PModel pet_class []) \<and>
   marshal_schema_object example_env marked_string_spec (PModel pet_class [])
     = (Inr (PModel pet_class []), []) \<and>
   marshal_schema_object example_env marked_array_spec (PDict [])
     = marshal_array example_env marked_array_spec (PDict []) \<and>
   marshal_schema_object example_env marked_array_spec (PDict [])
     = (Inl (SwaggerMappingError (Expected_list_like (PDict []))), [])"
  using model_dispatch [of pet_spec example_env "PDict [(''label'', PStr ''a''), (''age'', PNone)]"]
    model_dispatch [of marked_string_spec example_env "PModel pet_class []"]
    model_dispatch [of marked_array_spec example_env "PDict []"]
  by (simp add: example_simps)

text \<open>
  Claim C9 as stated fails for a marked spec of type \<^verbatim>\<open>array\<close>: the array branch comes
  first, and a list marshals as an array where \<open>marshal_model\<close> would raise.
\<close>

theorem marked_array_not_model:
  "is_model marked_array_spec \<and>
   marshal_schema_object example_env marked_array_spec (PList [PStr ''a''])
     = (Inr (PList [PStr ''a'']), []) \<and>
   marshal_model example_env marked_array_spec (PList [PStr ''a''])
     = (Inl (SwaggerMappingError (Expected_model_of_type ''Pet'' (PList [PStr ''a'']))), [])"
  by (simp add: example_simps)

section \<open>What reaches the wire\<close>

text \<open>
  Claim C8, as the code has it. \<open>marshal_schema_object\<close> takes the branch \<open>dispatch\<close> names.
  Whenever it returns, every leaf of the result is a leaf of what is emitted at a place
  the walk visits: of what \<open>marshal_primitive\<close> returns for a value under a primitive
  spec, of a value under a \<^verbatim>\<open>file\<close> spec, or of a property value that has no spec; and
  what \<open>marshal_primitive\<close> returns is the value it was given, the declared default (for
  \<^verbatim>\<open>None\<close>), or what the registered format's encoder returns for the value. Under a
  model-marked spec that reaches the model branch the result is a dict, so a model
  instance marshaled there is never emitted itself. The three places hand the value back
  as it is, whatever it is: a \<^verbatim>\<open>file\<close> spec always; a primitive spec for a value that is
  not \<^verbatim>\<open>None\<close> when the spec has no format or the format is not registered; a property
  with no spec, under its own key. So a model instance or a scalar that JSON does not have
  stands in the result only as part of a value handed back at one of these places, of a
  declared default, or of what an encoder returned.
\<close>

theorem marshaled_leaves_origin:
  "marshal_schema_object e s v =
     (case dispatch e s of
        Primitive_kind \<Rightarrow> marshal_primitive e s v
      | Array_kind \<Rightarrow> marshal_array e s v
      | Model_kind \<Rightarrow> if is_dict_like v then marshal_object e s v else marshal_model e s v
      | Object_kind \<Rightarrow> marshal_object e s v
      | File_kind \<Rightarrow> (Inr v, [])
      | Unknown_kind \<Rightarrow> (Inl (SwaggerMappingError (Unknown_type (spec_type s) v)), [])) \<and>
   (fst (marshal_schema_object e s v) = Inr r \<and> u \<in> leaves r \<longrightarrow>
      (\<exists>p w. visits e s v p \<and> w \<in> emitted_at e p \<and> u \<in> leaves w)) \<and>
   (fst (marshal_primitive e t x) = Inr w \<longrightarrow>
      w = x \<or> (x = PNone \<and> spec_default t = Some w) \<or>
      (\<exists>f. formatters e (schema_get_format t) = Some f \<and> to_wire f x = Inr w)) \<and>
   (dispatch e s = Model_kind \<and> fst (marshal_schema_object e s v) = Inr r \<longrightarrow>
      (\<exists>out. r = PDict out)) \<and>
   (dispatch e s = File_kind \<longrightarrow> marshal_schema_object e s v = (Inr v, [])) \<and>
   (dispatch e s = Primitive_kind \<and> v \<noteq> PNone \<and>
      (\<not> has_format s \<or> formatters e (schema_get_format s) = None) \<longrightarrow>
      fst (marshal_schema_object e s v) = Inr v) \<and>
   ((dispatch e s = Model_kind \<or> dispatch e s = Object_kind) \<and> distinct (map fst kvs) \<and>
      (k, y) \<in> set kvs \<and> y \<noteq> PNone \<and> get_spec_for_prop e s (PDict kvs) k = None \<and>
      fst (marshal_schema_object e s (PDict kvs)) = Inr r \<longrightarrow>
      (\<exists>out. r = PDict out \<and> map_of out k = Some y))"
proof (intro conjI impI)
  show "marshal_schema_object e s v =
     (case dispatch e s of
        Primitive_kind \<Rightarrow> marshal_primitive e s v
      | Array_kind \<Rightarrow> marshal_array e s v
      | Model_kind \<Rightarrow> if is_dict_like v then marshal_object e s v else marshal_model e s v
      | Object_kind \<Rightarrow> marshal_object e s v
      | File_kind \<Rightarrow> (Inr v, [])
      | Unknown_kind \<Rightarrow> (Inl (SwaggerMappingError (Unknown_type (spec_type s) v)), []))"
    by (rule marshal_schema_object_dispatch)
next
  assume a: "fst (marshal_schema_object e s v) = Inr r \<and> u \<in> leaves r"
  then have "leaves r \<subseteq> walk_leaves e s v"
    by (simp add: marshal_schema_object_walk_leaves)
  with a have "u \<in> walk_leaves e s v" by blast
  then show "\<exists>p w. visits e s v p \<and> w \<in> emitted_at e p \<and> u \<in> leaves w"
    by (simp add: walk_leaves_def)
next
  assume "fst (marshal_primitive e t x) = Inr w"
  then show "w = x \<or> (x = PNone \<and> spec_default t = Some w) \<or>
      (\<exists>f. formatters e (schema_get_format t) = Some f \<and> to_wire f x = Inr w)"
    by (rule marshal_primitive_origin)
next
  assume a: "dispatch e s = Model_kind \<and> fst (marshal_schema_object e s v) = Inr r"
  with marshal_schema_object_branch [of e s v r]
  obtain d where "fst (marshal_object e s (PDict d)) = Inr r" by auto
  then have "fst (marshal_object_loop e s (PDict d) d []) = Inr r"
    by (simp add: marshal_object_PDict)
  from marshal_object_loop_values [OF this] show "\<exists>out. r = PDict out" by blast
next
  assume "dispatch e s = File_kind"
  then show "marshal_schema_object e s v = (Inr v, [])"
    by (simp add: marshal_schema_object_dispatch)
next
  assume "dispatch e s = Primitive_kind \<and> v \<noteq> PNone \<and>
      (\<not> has_format s \<or> formatters e (schema_get_format s) = None)"
  then show "fst (marshal_schema_object e s v) = Inr v"
    using marshal_primitive_passthrough [of v s e]
    by (simp add: marshal_schema_object_dispatch)
next
  assume a: "(dispatch e s = Model_kind \<or> dispatch e s = Object_kind) \<and> distinct (map fst kvs) \<and>
      (k, y) \<in> set kvs \<and> y \<noteq> PNone \<and> get_spec_for_prop e s (PDict kvs) k = None \<and>
      fst (marshal_schema_object e s (PDict kvs)) = Inr r"
  then have "fst (marshal_object e s (PDict kvs)) = Inr r"
    by (auto simp: marshal_schema_object_dispatch)
  then have "fst (marshal_object_loop e s (PDict kvs) kvs []) = Inr r"
    by (simp add: marshal_object_PDict)
  from marshal_object_loop_Inr [OF this] a obtain out where out: "r = PDict out"
    and each: "case map_of kvs k of
              None \<Rightarrow> map_of out k = map_of [] k
            | Some v \<Rightarrow>
                if v = PNone then map_of out k = map_of [] k
                else \<exists>w. marshaled_entry e s (PDict kvs) k v w \<and> map_of out k = Some w"
    by blast
  from a have "map_of kvs k = Some y" by simp
  with each a have "map_of out k = Some y" by (auto simp: marshaled_entry_def)
  with out show "\<exists>out. r = PDict out \<and> map_of out k = Some y" by blast
qed

theorem marshaled_leaves_origin_witness:
  "dispatch example_env pet_spec = Model_kind \<and>
   fst (marshal_schema_object example_env pet_spec tagged_pet)
     = Inr (PDict [(''born'', PObject ''date'' 0), (''label'', PStr ''#a'')]) \<and>
   PStr ''#a'' \<in> leaves (PDict [(''born'', PObject ''date'' 0), (''label'', PStr ''#a'')]) \<and>
   visits example_env pet_spec tagged_pet (At_primitive tagged_spec (PStr ''a'')) \<and>
   PStr ''#a'' \<in> emitted_at example_env (At_primitive tagged_spec (PStr ''a'')) \<and>
   \<not> visits example_env pet_spec tagged_pet (At_unspecified tagged_pet) \<and>
   \<not> visits example_env pet_spec tagged_pet (At_file tagged_pet) \<and>
   marshal_schema_object example_env (primitive_spec ''file'') tagged_pet = (Inr tagged_pet, []) \<and>
   fst (marshal_schema_object example_env (primitive_spec ''string'') tagged_pet) = Inr tagged_pet \<and>
   fst (marshal_schema_object example_env thing_spec (PDict [(''extra'', tagged_pet)]))
     = Inr (PDict [(''extra'', tagged_pet)])"
proof -
  have kind: "dispatch example_env pet_spec = Model_kind"
    by (simp add: dispatch_def example_simps)
  have run: "fst (marshal_schema_object example_env pet_spec tagged_pet)
     = Inr (PDict [(''born'', PObject ''date'' 0), (''label'', PStr ''#a'')])"
    by (simp add: tagged_pet_def example_simps)
  have leaf: "PStr ''#a'' \<in> leaves (PDict [(''born'', PObject ''date'' 0), (''label'', PStr ''#a'')])"
    by simp
  from marshaled_leaves_origin
    [of example_env pet_spec tagged_pet
        "PDict [(''born'', PObject ''date'' 0), (''label'', PStr ''#a'')]" "PStr ''#a''"]
    run leaf
  obtain p w where p: "visits example_env pet_spec tagged_pet p"
    and w: "w \<in> emitted_at example_env p" and u: "PStr ''#a'' \<in> leaves w"
    by blast
  from visits_tagged_pet [OF p] w u have p_eq: "p = At_primitive tagged_spec (PStr ''a'')"
    by auto
  with p have at: "visits example_env pet_spec tagged_pet (At_primitive tagged_spec (PStr ''a''))"
    by simp
  have emitted: "PStr ''#a'' \<in> emitted_at example_env (At_primitive tagged_spec (PStr ''a''))"
    by (simp add: example_simps)
  have no1: "\<not> visits example_env pet_spec tagged_pet (At_unspecified tagged_pet)"
    using visits_tagged_pet [of "At_unspecified tagged_pet"] by (auto simp: tagged_pet_def)
  have no2: "\<not> visits example_env pet_spec tagged_pet (At_file tagged_pet)"
    using visits_tagged_pet [of "At_file tagged_pet"] by auto
  have file_run: "marshal_schema_object example_env (primitive_spec ''file'') tagged_pet
      = (Inr tagged_pet, [])"
    by (simp add: example_simps)
  have prim_run: "fst (marshal_schema_object example_env (primitive_spec ''string'') tagged_pet)
      = Inr tagged_pet"
    by (simp add: tagged_pet_def example_simps)
  have prop_run: "fst (marshal_schema_object example_env thing_spec (PDict [(''extra'', tagged_pet)]))
     = Inr (PDict [(''extra'', tagged_pet)])"
    by (simp add: tagged_pet_def example_simps)
  from kind run leaf at emitted no1 no2 file_run prim_run prop_run show ?thesis by blast
qed

text \<open>
  Claim C8 as stated fails for a property with no spec whose value is a model instance:
  the instance is stored unchanged, and it is neither a JSON primitive nor what an encoder
  returned.
\<close>

theorem model_instance_passed_through:
  "fst (marshal_schema_object example_env thing_spec (PDict [(''extra'', PModel pet_class [])]))
     = Inr (PDict [(''extra'', PModel pet_class [])]) \<and>
   PModel pet_class [] \<in> leaves (PDict [(''extra'', PModel pet_class [])]) \<and>
   \<not> json_primitive (PModel pet_class []) \<and>
   PModel pet_class [] \<notin> encoder_outputs example_env"
proof -
  have "to_wire tag_format x \<noteq> Inr (PModel pet_class [])" for x
    by (cases x) (simp_all add: tag_format_def)
  then have "PModel pet_class [] \<notin> encoder_outputs example_env"
    by (simp add: encoder_outputs_def example_env_def register_format_def)
  then show ?thesis by (simp add: example_simps)
qed

end
